theory Spec2Isabelle
  imports Main
begin

section \<open>Runtime borrow checker: data model\<close>

text \<open>
  The repository holds three generations of one small library.
  \<^item> v1 (second half of \<^verbatim>\<open>v2.h\<close>): a hash-map registry whose \<^verbatim>\<open>remove_borrow\<close> asserts that
    the key exists, with \<^verbatim>\<open>Ref\<close> and \<^verbatim>\<open>MutableRef\<close>.
  \<^item> v2 (first half of \<^verbatim>\<open>v2.h\<close>): a hash-map registry whose \<^verbatim>\<open>remove_borrow\<close> ignores a
    missing key, with \<^verbatim>\<open>Own\<close>, \<^verbatim>\<open>Ref\<close> and \<^verbatim>\<open>MutableRef\<close>.
  \<^item> v3 (the file with \<^verbatim>\<open>std::array\<close>): a registry of \<^verbatim>\<open>N\<close> slots scanned linearly, with
    \<^verbatim>\<open>Own\<close> and \<^verbatim>\<open>Ref\<close>.

  An address (\<^verbatim>\<open>void *\<close>, \<^verbatim>\<open>T *\<close>) is a natural number and \<^verbatim>\<open>nullptr\<close> is \<open>0\<close>.
  Every handle of a run is bound to the same \<^verbatim>\<open>BorrowChecker\<close> object, so the
  back-pointer \<^verbatim>\<open>borrow_checker_\<close> is not a field of the handle records: the registry it
  points to is the state that every operation takes and returns.
\<close>

type_synonym addr = nat

definition nullptr :: addr where
  "nullptr = 0"

datatype BorrowState = Valid | Invalid | MutableBorrowed | Owned

text \<open>
  The two exception classes the code throws, with their messages.
\<close>

datatype exn = runtime_error string | logic_error string

text \<open>
  How a call can end without returning. \<open>Thrown e s\<close> is an exception that reaches the
  caller, who can catch it; \<open>s\<close> is the state at the \<^verbatim>\<open>throw\<close>. \<open>Assertion_failed\<close> is a
  failed \<^verbatim>\<open>assert\<close> (the process aborts; assertions are compiled in, that is, \<^verbatim>\<open>NDEBUG\<close> is
  not defined). \<open>Terminated\<close> is \<^verbatim>\<open>std::terminate\<close>, which is what a
  \<^verbatim>\<open>throw\<close> that leaves a \<^verbatim>\<open>noexcept\<close> function amounts to. \<open>Undefined_behaviour\<close> is
  \<^verbatim>\<open>__builtin_unreachable()\<close> being reached, or \<^verbatim>\<open>delete\<close> on storage that is not live.
\<close>

datatype 's fault = Thrown exn 's | Assertion_failed | Terminated | Undefined_behaviour

subsection \<open>The hash-map registry (v1 and v2)\<close>

text \<open>
  \<^verbatim>\<open>std::unordered_map<void *, BorrowState> borrow_map_\<close> is the only member of the class.
\<close>

type_synonym BorrowChecker = "addr \<rightharpoonup> BorrowState"

text \<open>\<^verbatim>\<open>add_borrow\<close> is the same in v1 and v2: assert that the key is absent, then store.\<close>

definition add_borrow :: "BorrowChecker \<Rightarrow> addr \<Rightarrow> BorrowState \<Rightarrow> BorrowChecker fault + BorrowChecker" where
  "add_borrow borrow_map p st =
     (if borrow_map p \<noteq> None then Inl Assertion_failed
      else Inr (borrow_map(p \<mapsto> st)))"

text \<open>v2: a missing key is ignored.\<close>

definition remove_borrow :: "BorrowChecker \<Rightarrow> addr \<Rightarrow> BorrowChecker" where
  "remove_borrow borrow_map p =
     (case borrow_map p of None \<Rightarrow> borrow_map | Some _ \<Rightarrow> borrow_map(p := None))"

text \<open>v1: the key must exist.\<close>

definition remove_borrow_v1 :: "BorrowChecker \<Rightarrow> addr \<Rightarrow> BorrowChecker fault + BorrowChecker" where
  "remove_borrow_v1 borrow_map p =
     (if borrow_map p = None then Inl Assertion_failed
      else Inr (borrow_map(p := None)))"

text \<open>\<^verbatim>\<open>check_borrow\<close> is the same in v1 and v2.\<close>

definition check_borrow :: "BorrowChecker \<Rightarrow> addr \<Rightarrow> BorrowState" where
  "check_borrow borrow_map p =
     (case borrow_map p of None \<Rightarrow> Valid | Some st \<Rightarrow> st)"

definition set_owned :: "BorrowChecker \<Rightarrow> addr \<Rightarrow> BorrowChecker" where
  "set_owned borrow_map p =
     (case borrow_map p of None \<Rightarrow> borrow_map | Some _ \<Rightarrow> borrow_map(p \<mapsto> Owned))"

definition check_owned :: "BorrowChecker \<Rightarrow> addr \<Rightarrow> bool" where
  "check_owned borrow_map p =
     (case borrow_map p of None \<Rightarrow> False | Some st \<Rightarrow> st = Owned)"

subsection \<open>The exclusive-access handle \<^verbatim>\<open>MutableRef\<close> (v1 and v2)\<close>

record MutableRef =
  data_MutableRef :: addr

definition MutableRef_ctor ::
  "addr \<Rightarrow> BorrowChecker \<Rightarrow> BorrowChecker fault + MutableRef \<times> BorrowChecker" where
  "MutableRef_ctor p bc =
     (if check_borrow bc p \<noteq> Valid
      then Inl (Thrown (runtime_error ''cannot borrow as mutable more than once, already borrowed'') bc)
      else (case add_borrow bc p MutableBorrowed of
              Inl f \<Rightarrow> Inl f
            | Inr bc' \<Rightarrow> Inr (\<lparr>data_MutableRef = p\<rparr>, bc')))"

text \<open>The destructor of v2 (\<^verbatim>\<open>remove_borrow\<close> cannot fail there) and of v1.\<close>

definition MutableRef_dtor :: "MutableRef \<Rightarrow> BorrowChecker \<Rightarrow> BorrowChecker" where
  "MutableRef_dtor this bc = remove_borrow bc (data_MutableRef this)"

definition MutableRef_dtor_v1 :: "MutableRef \<Rightarrow> BorrowChecker \<Rightarrow> BorrowChecker fault + BorrowChecker" where
  "MutableRef_dtor_v1 this bc = remove_borrow_v1 bc (data_MutableRef this)"

subsection \<open>The shared-access handle \<^verbatim>\<open>Ref\<close> over the hash-map registry (v2 and v1)\<close>

record Ref =
  data_Ref :: addr

text \<open>
  The right-hand side of an assignment: the object itself (\<^verbatim>\<open>this == &other\<close>) or another
  object, given by its value.
\<close>

datatype 'h operand = This | Other 'h

text \<open>
  The constructor is the same in v1 and v2. It does not call \<^verbatim>\<open>check_borrow\<close>; the second
  assertion (\<^verbatim>\<open>borrow_checker_ != nullptr\<close>) holds since the registry is given.
\<close>

definition Ref_ctor :: "addr \<Rightarrow> BorrowChecker \<Rightarrow> BorrowChecker fault + Ref \<times> BorrowChecker" where
  "Ref_ctor p bc =
     (if p = nullptr then Inl Assertion_failed
      else (case add_borrow bc p Valid of
              Inl f \<Rightarrow> Inl f
            | Inr bc' \<Rightarrow> Inr (\<lparr>data_Ref = p\<rparr>, bc')))"

text \<open>v2: the move constructor empties the source and leaves the registry alone.\<close>

definition Ref_move_ctor :: "Ref \<Rightarrow> Ref \<times> Ref" where
  "Ref_move_ctor other = (\<lparr>data_Ref = data_Ref other\<rparr>, other\<lparr>data_Ref := nullptr\<rparr>)"

text \<open>
  v2: \<^verbatim>\<open>Ref &operator=(Ref &&other) noexcept\<close>. The function is \<^verbatim>\<open>noexcept\<close>, so its
  \<^verbatim>\<open>throw\<close> ends in \<^verbatim>\<open>std::terminate\<close>. The result is the pair of \<^verbatim>\<open>*this\<close> and \<^verbatim>\<open>other\<close>
  after the call (\<open>None\<close> for \<^verbatim>\<open>other\<close> on self-assignment) and the registry.
\<close>

definition Ref_move_assign ::
  "Ref \<Rightarrow> Ref operand \<Rightarrow> BorrowChecker \<Rightarrow> BorrowChecker fault + (Ref \<times> Ref option) \<times> BorrowChecker" where
  "Ref_move_assign this rhs bc =
     (case rhs of
        This \<Rightarrow> Inr ((this, None), bc)
      | Other other \<Rightarrow>
          if check_borrow bc (data_Ref other) \<noteq> Valid then Inl Terminated
          else let bc1 = remove_borrow bc (data_Ref this);
                   this' = this\<lparr>data_Ref := data_Ref other\<rparr>;
                   other' = other\<lparr>data_Ref := nullptr\<rparr>
               in (case add_borrow bc1 (data_Ref this') Valid of
                     Inl f \<Rightarrow> Inl f
                   | Inr bc2 \<Rightarrow> Inr ((this', Some other'), bc2)))"

definition Ref_dtor :: "Ref \<Rightarrow> BorrowChecker \<Rightarrow> BorrowChecker" where
  "Ref_dtor this bc =
     (if data_Ref this \<noteq> nullptr then remove_borrow bc (data_Ref this) else bc)"

text \<open>
  v1: \<^verbatim>\<open>Ref<T> &operator=(Ref<T> &&other)\<close>, not \<^verbatim>\<open>noexcept\<close>: both exceptions reach the
  caller. \<^verbatim>\<open>other.data_\<close> is not reset.
\<close>

definition Ref_move_assign_v1 ::
  "Ref \<Rightarrow> Ref operand \<Rightarrow> BorrowChecker \<Rightarrow> BorrowChecker fault + Ref \<times> BorrowChecker" where
  "Ref_move_assign_v1 this rhs bc =
     (if data_Ref this = nullptr then Inl Assertion_failed
      else case rhs of
        This \<Rightarrow> Inl (Thrown (runtime_error ''cannot move the same value twice'') bc)
      | Other other \<Rightarrow>
          if check_borrow bc (data_Ref other) \<noteq> Valid
          then Inl (Thrown (runtime_error ''cannot move value while it is borrowed'') bc)
          else (case remove_borrow_v1 bc (data_Ref this) of
                  Inl f \<Rightarrow> Inl f
                | Inr bc1 \<Rightarrow>
                    let this' = this\<lparr>data_Ref := data_Ref other\<rparr>
                    in (case remove_borrow_v1 bc1 (data_Ref other) of
                          Inl f \<Rightarrow> Inl f
                        | Inr bc2 \<Rightarrow>
                            (case add_borrow bc2 (data_Ref this') Valid of
                               Inl f \<Rightarrow> Inl f
                             | Inr bc3 \<Rightarrow> Inr (this', bc3)))))"

definition Ref_dtor_v1 :: "Ref \<Rightarrow> BorrowChecker \<Rightarrow> BorrowChecker fault + BorrowChecker" where
  "Ref_dtor_v1 this bc = remove_borrow_v1 bc (data_Ref this)"

subsection \<open>The fixed-capacity registry (v3)\<close>

text \<open>
  \<^verbatim>\<open>std::array<PtrState, N> borrow_map_{}\<close>: a list of \<open>N\<close> slots; a slot whose \<^verbatim>\<open>ptr\<close> is
  \<^verbatim>\<open>nullptr\<close> is free. The loops over \<^verbatim>\<open>i = 0 .. N-1\<close> are recursions over the list.
\<close>

record PtrState =
  ptr :: addr
  state :: BorrowState

type_synonym BorrowChecker_v3 = "PtrState list"

text \<open>The value-initialised array: every slot is \<^verbatim>\<open>{nullptr, Valid}\<close>.\<close>

definition BorrowChecker_v3_ctor :: "nat \<Rightarrow> BorrowChecker_v3" where
  "BorrowChecker_v3_ctor N = replicate N \<lparr>ptr = nullptr, state = Valid\<rparr>"

text \<open>
  \<^verbatim>\<open>add_borrow\<close> takes the first free slot and does not look for a slot that already holds
  the pointer. With no free slot the loop ends and \<^verbatim>\<open>__builtin_unreachable()\<close> is reached.
\<close>

fun add_borrow_v3 ::
  "BorrowChecker_v3 \<Rightarrow> addr \<Rightarrow> BorrowState \<Rightarrow> BorrowChecker_v3 fault + BorrowChecker_v3" where
  "add_borrow_v3 [] p st = Inl Undefined_behaviour"
| "add_borrow_v3 (e # es) p st =
     (if ptr e = nullptr then Inr (\<lparr>ptr = p, state = st\<rparr> # es)
      else (case add_borrow_v3 es p st of
              Inl f \<Rightarrow> Inl f
            | Inr es' \<Rightarrow> Inr (e # es')))"

fun remove_borrow_v3 :: "BorrowChecker_v3 \<Rightarrow> addr \<Rightarrow> BorrowChecker_v3" where
  "remove_borrow_v3 [] p = []"
| "remove_borrow_v3 (e # es) p =
     (if ptr e = p then \<lparr>ptr = nullptr, state = Valid\<rparr> # es
      else e # remove_borrow_v3 es p)"

text \<open>
  \<^verbatim>\<open>check_borrow_impl\<close> first fills \<^verbatim>\<open>states\<close>, slot by slot, and then returns the first
  entry of \<^verbatim>\<open>states\<close> that is not \<^verbatim>\<open>Valid\<close>.
\<close>

definition slot_state :: "addr \<Rightarrow> PtrState \<Rightarrow> BorrowState" where
  "slot_state p e =
     (if ptr e = nullptr then Valid else if ptr e = p then state e else Valid)"

fun first_not_Valid :: "BorrowState list \<Rightarrow> BorrowState" where
  "first_not_Valid [] = Valid"
| "first_not_Valid (st # sts) = (if st \<noteq> Valid then st else first_not_Valid sts)"

definition check_borrow_impl :: "BorrowChecker_v3 \<Rightarrow> addr \<Rightarrow> BorrowState" where
  "check_borrow_impl borrow_map p = first_not_Valid (map (slot_state p) borrow_map)"

definition check_borrow_v3 :: "BorrowChecker_v3 \<Rightarrow> addr \<Rightarrow> BorrowState" where
  "check_borrow_v3 borrow_map p = check_borrow_impl borrow_map p"

fun set_owned_v3 :: "BorrowChecker_v3 \<Rightarrow> addr \<Rightarrow> BorrowChecker_v3" where
  "set_owned_v3 [] p = []"
| "set_owned_v3 (e # es) p =
     (if ptr e = p then e\<lparr>state := Owned\<rparr> # es else e # set_owned_v3 es p)"

fun check_owned_v3 :: "BorrowChecker_v3 \<Rightarrow> addr \<Rightarrow> bool" where
  "check_owned_v3 [] p = False"
| "check_owned_v3 (e # es) p =
     (if ptr e = p then state e = Owned else check_owned_v3 es p)"

subsection \<open>The shared-access handle \<^verbatim>\<open>Ref\<close> over the fixed-capacity registry (v3)\<close>

definition Ref_ctor_v3 ::
  "addr \<Rightarrow> BorrowChecker_v3 \<Rightarrow> BorrowChecker_v3 fault + Ref \<times> BorrowChecker_v3" where
  "Ref_ctor_v3 p bc =
     (if check_borrow_v3 bc p \<noteq> Valid
      then Inl (Thrown (logic_error ''Invalid borrow in Ref constructor'') bc)
      else (case add_borrow_v3 bc p Valid of
              Inl f \<Rightarrow> Inl f
            | Inr bc' \<Rightarrow> Inr (\<lparr>data_Ref = p\<rparr>, bc')))"

definition Ref_move_assign_v3 ::
  "Ref \<Rightarrow> Ref operand \<Rightarrow> BorrowChecker_v3 \<Rightarrow> (Ref \<times> Ref option) \<times> BorrowChecker_v3" where
  "Ref_move_assign_v3 this rhs bc =
     (case rhs of
        This \<Rightarrow> ((this, None), bc)
      | Other other \<Rightarrow>
          ((this\<lparr>data_Ref := data_Ref other\<rparr>, Some (other\<lparr>data_Ref := nullptr\<rparr>)),
           remove_borrow_v3 bc (data_Ref this)))"

definition Ref_dtor_v3 :: "Ref \<Rightarrow> BorrowChecker_v3 \<Rightarrow> BorrowChecker_v3" where
  "Ref_dtor_v3 this bc = remove_borrow_v3 bc (data_Ref this)"

subsection \<open>The exclusive-ownership handle \<^verbatim>\<open>Own\<close> (v2 and v3)\<close>

text \<open>
  \<^verbatim>\<open>Own\<close> deletes its pointee, so its operations run on the registry together with the set
  of addresses whose storage is live. \<^verbatim>\<open>delete\<close> of \<^verbatim>\<open>nullptr\<close> does nothing, \<^verbatim>\<open>delete\<close> of
  live storage releases it, and any other \<^verbatim>\<open>delete\<close> is undefined.
\<close>

record Own =
  data_Own :: addr
  is_owner_Own :: bool



text \<open>Constructor, move constructor and \<^verbatim>\<open>get\<close> do not touch the registry (v2 and v3).\<close>

definition Own_ctor :: "addr \<Rightarrow> Own" where
  "Own_ctor p = \<lparr>data_Own = p, is_owner_Own = True\<rparr>"


definition get :: "Own \<Rightarrow> addr" where
  "get this = data_Own this"



definition Own_borrow_v3 ::
  "Own \<Rightarrow> BorrowChecker_v3 \<Rightarrow> BorrowChecker_v3 fault + Own \<times> BorrowChecker_v3" where
  "Own_borrow_v3 this bc =
     (if check_borrow_v3 bc (data_Own this) \<noteq> Valid
      then Inl (Thrown (logic_error ''borrow of already borrowed data'') bc)
      else (case add_borrow_v3 bc (data_Own this) Owned of
              Inl f \<Rightarrow> Inl f
            | Inr bc' \<Rightarrow> Inr (Own_ctor (data_Own this), bc')))"

definition Own_set_owned_v3 ::
  "Own \<Rightarrow> BorrowChecker_v3 \<Rightarrow> BorrowChecker_v3 fault + Own \<times> BorrowChecker_v3" where
  "Own_set_owned_v3 this bc =
     (if check_borrow_v3 bc (data_Own this) \<noteq> Valid
      then Inl (Thrown (logic_error ''setting owned of borrowed data'') bc)
      else Inr (this\<lparr>is_owner_Own := True\<rparr>, set_owned_v3 bc (data_Own this)))"




definition set_owner :: "Own \<Rightarrow> BorrowChecker \<Rightarrow> BorrowChecker fault + BorrowChecker" where
  "set_owner this bc =
     (if \<not> is_owner_Own this
      then Inl (Thrown (runtime_error ''value already has an owner'') bc)
      else Inr (set_owned bc (data_Own this)))"


subsection \<open>Sequences of registry operations\<close>

datatype registry_op = Register addr BorrowState | Unregister addr | Mark_owned addr

fun apply_op :: "BorrowChecker \<Rightarrow> registry_op \<Rightarrow> BorrowChecker fault + BorrowChecker" where
  "apply_op bc (Register p st) = add_borrow bc p st"
| "apply_op bc (Unregister p) = Inr (remove_borrow bc p)"
| "apply_op bc (Mark_owned p) = Inr (set_owned bc p)"

fun run :: "BorrowChecker \<Rightarrow> registry_op list \<Rightarrow> BorrowChecker fault + BorrowChecker" where
  "run bc [] = Inr bc"
| "run bc (x # xs) = (case apply_op bc x of Inl f \<Rightarrow> Inl f | Inr bc' \<Rightarrow> run bc' xs)"

fun apply_op_v3 :: "BorrowChecker_v3 \<Rightarrow> registry_op \<Rightarrow> BorrowChecker_v3 fault + BorrowChecker_v3" where
  "apply_op_v3 bc (Register p st) = add_borrow_v3 bc p st"
| "apply_op_v3 bc (Unregister p) = Inr (remove_borrow_v3 bc p)"
| "apply_op_v3 bc (Mark_owned p) = Inr (set_owned_v3 bc p)"

fun run_v3 :: "BorrowChecker_v3 \<Rightarrow> registry_op list \<Rightarrow> BorrowChecker_v3 fault + BorrowChecker_v3" where
  "run_v3 bc [] = Inr bc"
| "run_v3 bc (x # xs) = (case apply_op_v3 bc x of Inl f \<Rightarrow> Inl f | Inr bc' \<Rightarrow> run_v3 bc' xs)"

text \<open>
  An entry of the fixed-capacity registry is an occupied slot. \<open>has_entry_v3\<close> says that
  some occupied slot holds \<open>p\<close>; \<open>at_most_one_entry\<close> that no address occupies two slots.
\<close>

definition has_entry_v3 :: "BorrowChecker_v3 \<Rightarrow> addr \<Rightarrow> bool" where
  "has_entry_v3 bc p \<longleftrightarrow> p \<noteq> nullptr \<and> p \<in> set (map ptr bc)"

definition at_most_one_entry :: "BorrowChecker_v3 \<Rightarrow> bool" where
  "at_most_one_entry bc \<longleftrightarrow> distinct (filter (\<lambda>q. q \<noteq> nullptr) (map ptr bc))"


text \<open>
  A sequence respects the precondition of \<^verbatim>\<open>register\<close> when each \<open>Register p st\<close> in it is
  applied to a registry without an entry for \<open>p\<close>.
\<close>

fun respects_precondition :: "BorrowChecker_v3 \<Rightarrow> registry_op list \<Rightarrow> bool" where
  "respects_precondition bc [] = True"
| "respects_precondition bc (x # xs) =
     ((case x of Register p st \<Rightarrow> \<not> has_entry_v3 bc p | _ \<Rightarrow> True)
      \<and> (case apply_op_v3 bc x of Inl f \<Rightarrow> True | Inr bc' \<Rightarrow> respects_precondition bc' xs))"

fun op_addr :: "registry_op \<Rightarrow> addr" where
  "op_addr (Register p st) = p"
| "op_addr (Unregister p) = p"
| "op_addr (Mark_owned p) = p"


subsection \<open>The fixed-capacity registry read as a map\<close>

text \<open>
  The map that a slot array stands for: its occupied slots, the first slot of an address
  winning. \<open>free_slots_Valid\<close> says that every free slot carries \<^verbatim>\<open>Valid\<close>, as after
  construction and after \<^verbatim>\<open>remove_borrow\<close>.
\<close>

fun abstraction :: "BorrowChecker_v3 \<Rightarrow> BorrowChecker" where
  "abstraction [] = Map.empty"
| "abstraction (e # es) =
     (if ptr e = nullptr then abstraction es else (abstraction es)(ptr e \<mapsto> state e))"

definition free_slots_Valid :: "BorrowChecker_v3 \<Rightarrow> bool" where
  "free_slots_Valid bc \<longleftrightarrow> (\<forall>e \<in> set bc. ptr e = nullptr \<longrightarrow> state e = Valid)"

definition registry_inv :: "BorrowChecker_v3 \<Rightarrow> bool" where
  "registry_inv bc \<longleftrightarrow> at_most_one_entry bc \<and> free_slots_Valid bc"

section \<open>The registry\<close>

subsection \<open>Basic facts\<close>


lemma add_borrow_not_Thrown: "add_borrow bc p st \<noteq> Inl (Thrown e bc')"
  by (simp add: add_borrow_def)

lemma remove_borrow_v1_not_Thrown: "remove_borrow_v1 bc p \<noteq> Inl (Thrown e bc')"
  by (simp add: remove_borrow_v1_def)

lemma first_not_Valid_eq_Valid:
  "first_not_Valid sts = Valid \<longleftrightarrow> (\<forall>st \<in> set sts. st = Valid)"
  by (induction sts) auto

lemma check_borrow_v3_eq_Valid:
  "check_borrow_v3 bc p = Valid \<longleftrightarrow>
     (\<forall>e \<in> set bc. ptr e = p \<and> ptr e \<noteq> nullptr \<longrightarrow> state e = Valid)"
  by (auto simp: check_borrow_v3_def check_borrow_impl_def first_not_Valid_eq_Valid slot_state_def)


lemma add_borrow_v3_Inr_set:
  "add_borrow_v3 bc p st = Inr bc' \<Longrightarrow> \<lparr>ptr = p, state = st\<rparr> \<in> set bc' \<and> length bc' = length bc"
  by (induction bc arbitrary: bc') (auto split: if_splits sum.splits)

lemma add_borrow_v3_free:
  "\<exists>e \<in> set bc. ptr e = nullptr \<Longrightarrow> \<exists>bc'. add_borrow_v3 bc p st = Inr bc'"
proof (induction bc)
  case Nil
  then show ?case by simp
next
  case (Cons e es)
  show ?case
  proof (cases "ptr e = nullptr")
    case True
    then show ?thesis by simp
  next
    case False
    with Cons.prems have "\<exists>e \<in> set es. ptr e = nullptr" by auto
    then obtain es' where "add_borrow_v3 es p st = Inr es'" using Cons.IH by blast
    with False show ?thesis by simp
  qed
qed

lemma add_borrow_v3_faults:
  "add_borrow_v3 bc p st = Inl f \<Longrightarrow> f = Undefined_behaviour"
  by (induction bc) (auto split: sum.splits if_splits)

lemma add_borrow_v3_not_Thrown: "add_borrow_v3 bc p st \<noteq> Inl (Thrown e bc')"
  using add_borrow_v3_faults by fastforce


subsection \<open>What \<^verbatim>\<open>check_borrow\<close> returns\<close>

text \<open>
  C3 (as amended). \<^verbatim>\<open>check_borrow\<close> returns \<^verbatim>\<open>Valid\<close> exactly when the address has no entry
  or its entry carries the state \<^verbatim>\<open>Valid\<close>: in the hash-map registry, when the key is
  absent or mapped to \<^verbatim>\<open>Valid\<close>; in the fixed-capacity registry, when every occupied slot
  that holds the address carries \<^verbatim>\<open>Valid\<close>.
\<close>

theorem check_borrow_Valid_iff:
  "(check_borrow bc p = Valid \<longleftrightarrow> bc p = None \<or> bc p = Some Valid)
   \<and> (check_borrow_v3 bm p = Valid \<longleftrightarrow>
        (\<forall>e \<in> set bm. ptr e = p \<and> ptr e \<noteq> nullptr \<longrightarrow> state e = Valid))"
proof
  show "check_borrow bc p = Valid \<longleftrightarrow> bc p = None \<or> bc p = Some Valid"
    by (cases "bc p") (simp_all add: check_borrow_def)
  show "check_borrow_v3 bm p = Valid \<longleftrightarrow>
      (\<forall>e \<in> set bm. ptr e = p \<and> ptr e \<noteq> nullptr \<longrightarrow> state e = Valid)"
    by (rule check_borrow_v3_eq_Valid)
qed

theorem check_borrow_Valid_iff_witness:
  "check_borrow [1 \<mapsto> Valid] 1 = Valid
   \<and> check_borrow_v3 [\<lparr>ptr = 1, state = Valid\<rparr>, \<lparr>ptr = 2, state = Owned\<rparr>] 1 = Valid"
  using check_borrow_Valid_iff
    [of "[1 \<mapsto> Valid]" 1 "[\<lparr>ptr = 1, state = Valid\<rparr>, \<lparr>ptr = 2, state = Owned\<rparr>]"]
  by simp

text \<open>
  The statement of the specification (\<^verbatim>\<open>Valid\<close> if and only if no entry exists) fails on the registry
  that the constructor of \<^verbatim>\<open>Ref\<close> leaves behind: the entry exists and the query returns
  \<^verbatim>\<open>Valid\<close>.
\<close>

theorem check_borrow_Valid_with_entry:
  "Ref_ctor 1 Map.empty = Inr (\<lparr>data_Ref = 1\<rparr>, [1 \<mapsto> Valid])
   \<and> \<not> (check_borrow [1 \<mapsto> Valid] 1 = Valid \<longleftrightarrow> [1 \<mapsto> Valid] (1::addr) = None)"
  by (simp add: Ref_ctor_def add_borrow_def check_borrow_def nullptr_def)

subsection \<open>Register, then unregister\<close>


lemma at_most_one_entry_Cons:
  "at_most_one_entry (e # es) \<longleftrightarrow>
     (ptr e \<noteq> nullptr \<longrightarrow> ptr e \<notin> set (map ptr es)) \<and> at_most_one_entry es"
  by (auto simp: at_most_one_entry_def)











subsection \<open>Registering into a full array\<close>

text \<open>
  C8 (as amended). In the fixed-capacity registry \<^verbatim>\<open>add_borrow\<close> ends in
  \<^verbatim>\<open>__builtin_unreachable()\<close>, that is, in undefined behaviour, exactly when every slot
  is occupied. It throws nothing and checks no assertion.
\<close>

theorem add_borrow_v3_exhausted:
  "(\<forall>e \<in> set bc. ptr e \<noteq> nullptr) \<longleftrightarrow> add_borrow_v3 bc p st = Inl Undefined_behaviour"
  by (induction bc) (auto split: sum.splits)

theorem add_borrow_v3_exhausted_witness:
  "add_borrow_v3 [\<lparr>ptr = 1, state = Valid\<rparr>, \<lparr>ptr = 2, state = Owned\<rparr>] 3 Valid
     = Inl Undefined_behaviour"
  using add_borrow_v3_exhausted [of "[\<lparr>ptr = 1, state = Valid\<rparr>, \<lparr>ptr = 2, state = Owned\<rparr>]" 3 Valid]
  by (simp add: nullptr_def)

text \<open>
  The statement of the specification (an assertion-level failure, never silent misbehaviour) fails on a
  full array of one slot: the outcome is not a failed assertion.
\<close>

theorem add_borrow_v3_exhausted_no_assertion:
  "add_borrow_v3 [\<lparr>ptr = 1, state = Valid\<rparr>] 2 Valid = Inl Undefined_behaviour
   \<and> add_borrow_v3 [\<lparr>ptr = 1, state = Valid\<rparr>] 2 Valid \<noteq> Inl Assertion_failed"
  by (simp add: nullptr_def)

subsection \<open>At most one entry per address\<close>

lemma at_most_one_entry_Nil: "at_most_one_entry []"
  by (simp add: at_most_one_entry_def)

lemma has_entry_v3_Cons:
  "has_entry_v3 (e # es) p \<longleftrightarrow> p \<noteq> nullptr \<and> (ptr e = p \<or> has_entry_v3 es p)"
  by (auto simp: has_entry_v3_def)

lemma has_entry_v3_Nil: "\<not> has_entry_v3 [] p"
  by (simp add: has_entry_v3_def)

lemma at_most_one_entry_ctor: "at_most_one_entry (BorrowChecker_v3_ctor N)"
  by (simp add: at_most_one_entry_def BorrowChecker_v3_ctor_def filter_False)

lemma ptrs_add_borrow_v3:
  "add_borrow_v3 bc p st = Inr bc' \<Longrightarrow> set (map ptr bc') \<subseteq> insert p (set (map ptr bc))"
proof (induction bc arbitrary: bc')
  case Nil
  then show ?case by simp
next
  case (Cons e es)
  show ?case
  proof (cases "ptr e = nullptr")
    case True
    with Cons.prems show ?thesis by auto
  next
    case False
    with Cons.prems obtain es' where es': "add_borrow_v3 es p st = Inr es'" and bc': "bc' = e # es'"
      by (auto split: sum.splits)
    from Cons.IH[OF es'] show ?thesis by (auto simp: bc')
  qed
qed

lemma at_most_one_entry_add_borrow_v3:
  "at_most_one_entry bc \<Longrightarrow> \<not> has_entry_v3 bc p \<Longrightarrow> add_borrow_v3 bc p st = Inr bc'
     \<Longrightarrow> at_most_one_entry bc'"
proof (induction bc arbitrary: bc')
  case Nil
  then show ?case by simp
next
  case (Cons e es)
  show ?case
  proof (cases "ptr e = nullptr")
    case True
    with Cons.prems show ?thesis
      by (auto simp: at_most_one_entry_Cons has_entry_v3_def)
  next
    case False
    with Cons.prems obtain es' where es': "add_borrow_v3 es p st = Inr es'" and bc': "bc' = e # es'"
      by (auto split: sum.splits)
    from Cons.prems have "at_most_one_entry es" "\<not> has_entry_v3 es p"
      by (auto simp: at_most_one_entry_Cons has_entry_v3_def)
    then have "at_most_one_entry es'" using Cons.IH es' by blast
    moreover have "ptr e \<notin> set (map ptr es')"
      using ptrs_add_borrow_v3[OF es'] Cons.prems False
      by (auto simp: at_most_one_entry_Cons has_entry_v3_def)
    ultimately show ?thesis by (simp add: bc' at_most_one_entry_Cons)
  qed
qed

lemma ptrs_remove_borrow_v3:
  "set (map ptr (remove_borrow_v3 bc p)) \<subseteq> insert nullptr (set (map ptr bc))"
  by (induction bc) auto

lemma at_most_one_entry_remove_borrow_v3:
  "at_most_one_entry bc \<Longrightarrow> at_most_one_entry (remove_borrow_v3 bc p)"
proof (induction bc)
  case Nil
  then show ?case by simp
next
  case (Cons e es)
  then show ?case
    using ptrs_remove_borrow_v3[of es p]
    by (auto simp: at_most_one_entry_Cons)
qed

lemma ptrs_set_owned_v3: "map ptr (set_owned_v3 bc p) = map ptr bc"
  by (induction bc) auto

lemma at_most_one_entry_set_owned_v3:
  "at_most_one_entry bc \<Longrightarrow> at_most_one_entry (set_owned_v3 bc p)"
  by (simp add: at_most_one_entry_def ptrs_set_owned_v3)

lemma at_most_one_entry_run_v3:
  "at_most_one_entry bc \<Longrightarrow> respects_precondition bc xs \<Longrightarrow> run_v3 bc xs = Inr bc'
     \<Longrightarrow> at_most_one_entry bc'"
proof (induction xs arbitrary: bc)
  case Nil
  then show ?case by simp
next
  case (Cons x xs)
  from Cons.prems obtain bc1 where step: "apply_op_v3 bc x = Inr bc1" and rest: "run_v3 bc1 xs = Inr bc'"
    by (auto split: sum.splits)
  from Cons.prems step have pre: "respects_precondition bc1 xs" by simp
  have "at_most_one_entry bc1"
  proof (cases x)
    case (Register p st)
    with Cons.prems step show ?thesis
      by (auto intro: at_most_one_entry_add_borrow_v3)
  next
    case (Unregister p)
    with Cons.prems step show ?thesis
      by (auto intro: at_most_one_entry_remove_borrow_v3)
  next
    case (Mark_owned p)
    with Cons.prems step show ?thesis
      by (auto intro: at_most_one_entry_set_owned_v3)
  qed
  then show ?case using Cons.IH pre rest by blast
qed

text \<open>
  C4 (as amended). In the hash-map registry \<^verbatim>\<open>add_borrow\<close> returns only when the address
  had no entry (otherwise its assertion fails), and the map holds one state per key. In
  the fixed-capacity registry \<^verbatim>\<open>add_borrow\<close> does not look for an existing entry; every
  registry reached from the empty one by \<^verbatim>\<open>add_borrow\<close>, \<^verbatim>\<open>remove_borrow\<close> and \<^verbatim>\<open>set_owned\<close>
  has at most one entry per address, provided that each \<^verbatim>\<open>add_borrow\<close> is applied to an
  address that has no entry at that moment.
\<close>

theorem at_most_one_entry_reachable:
  "(add_borrow bc p st = Inr bc1 \<longrightarrow> bc p = None \<and> bc1 = bc(p \<mapsto> st))
   \<and> (respects_precondition (BorrowChecker_v3_ctor N) xs
        \<and> run_v3 (BorrowChecker_v3_ctor N) xs = Inr bm \<longrightarrow> at_most_one_entry bm)"
  using at_most_one_entry_run_v3[OF at_most_one_entry_ctor]
  by (auto simp: add_borrow_def split: if_splits)

theorem at_most_one_entry_reachable_witness:
  "add_borrow Map.empty 1 Valid = Inr [1 \<mapsto> Valid]
   \<and> respects_precondition (BorrowChecker_v3_ctor 2) [Register 1 Valid, Register 2 Owned, Unregister 1, Register 1 Owned]
   \<and> run_v3 (BorrowChecker_v3_ctor 2) [Register 1 Valid, Register 2 Owned, Unregister 1, Register 1 Owned]
       = Inr [\<lparr>ptr = 1, state = Owned\<rparr>, \<lparr>ptr = 2, state = Owned\<rparr>]
   \<and> at_most_one_entry [\<lparr>ptr = 1, state = Owned\<rparr>, \<lparr>ptr = 2, state = Owned\<rparr>]"
proof -
  have a: "add_borrow Map.empty 1 Valid = Inr [1 \<mapsto> Valid]"
    by (simp add: add_borrow_def)
  have r: "run_v3 (BorrowChecker_v3_ctor 2) [Register 1 Valid, Register 2 Owned, Unregister 1, Register 1 Owned]
       = Inr [\<lparr>ptr = 1, state = Owned\<rparr>, \<lparr>ptr = 2, state = Owned\<rparr>]"
    by (simp add: BorrowChecker_v3_ctor_def numeral_2_eq_2 nullptr_def)
  have p: "respects_precondition (BorrowChecker_v3_ctor 2) [Register 1 Valid, Register 2 Owned, Unregister 1, Register 1 Owned]"
    by (simp add: BorrowChecker_v3_ctor_def numeral_2_eq_2 nullptr_def has_entry_v3_def)
  from at_most_one_entry_reachable [of Map.empty 1 Valid "[1 \<mapsto> Valid]" 2
      "[Register 1 Valid, Register 2 Owned, Unregister 1, Register 1 Owned]"
      "[\<lparr>ptr = 1, state = Owned\<rparr>, \<lparr>ptr = 2, state = Owned\<rparr>]"] a r p
  show ?thesis by simp
qed

text \<open>
  The statement of the specification (no sequence of operations produces two entries for one address)
  fails in the fixed-capacity registry: registering the same address twice fills two
  slots.
\<close>

theorem two_entries_for_one_address:
  "run_v3 (BorrowChecker_v3_ctor 2) [Register 1 Valid, Register 1 Owned]
     = Inr [\<lparr>ptr = 1, state = Valid\<rparr>, \<lparr>ptr = 1, state = Owned\<rparr>]
   \<and> \<not> at_most_one_entry [\<lparr>ptr = 1, state = Valid\<rparr>, \<lparr>ptr = 1, state = Owned\<rparr>]"
  by (simp add: BorrowChecker_v3_ctor_def numeral_2_eq_2 nullptr_def at_most_one_entry_def)


subsection \<open>The two registries agree\<close>

lemma free_slots_Valid_Cons:
  "free_slots_Valid (e # es) \<longleftrightarrow> (ptr e = nullptr \<longrightarrow> state e = Valid) \<and> free_slots_Valid es"
  by (auto simp: free_slots_Valid_def)

lemma abstraction_None: "abstraction bc p = None \<longleftrightarrow> \<not> has_entry_v3 bc p"
  by (induction bc) (auto simp: has_entry_v3_def)

lemma abstraction_nullptr: "abstraction bc nullptr = None"
  by (simp add: abstraction_None has_entry_v3_def)

lemma abstraction_absent: "p \<notin> set (map ptr bc) \<Longrightarrow> abstraction bc p = None"
  by (simp add: abstraction_None has_entry_v3_def)

lemma abstraction_add_borrow_v3:
  "p \<noteq> nullptr \<Longrightarrow> \<not> has_entry_v3 bc p \<Longrightarrow> add_borrow_v3 bc p st = Inr bc'
     \<Longrightarrow> abstraction bc' = (abstraction bc)(p \<mapsto> st)"
proof (induction bc arbitrary: bc')
  case Nil
  then show ?case by simp
next
  case (Cons e es)
  show ?case
  proof (cases "ptr e = nullptr")
    case True
    with Cons.prems show ?thesis by auto
  next
    case False
    with Cons.prems obtain es' where es': "add_borrow_v3 es p st = Inr es'" and bc': "bc' = e # es'"
      by (auto split: sum.splits)
    from Cons.prems have "\<not> has_entry_v3 es p" "ptr e \<noteq> p"
      by (auto simp: has_entry_v3_Cons)
    with Cons.IH[OF Cons.prems(1) _ es'] False show ?thesis
      by (auto simp: bc')
  qed
qed

lemma abstraction_remove_borrow_v3:
  "p \<noteq> nullptr \<Longrightarrow> at_most_one_entry bc
     \<Longrightarrow> abstraction (remove_borrow_v3 bc p) = (abstraction bc)(p := None)"
proof (induction bc)
  case Nil
  then show ?case by simp
next
  case (Cons e es)
  show ?case
  proof (cases "ptr e = p")
    case True
    with Cons.prems have "p \<notin> set (map ptr es)"
      by (auto simp: at_most_one_entry_Cons)
    then have "abstraction es p = None" by (rule abstraction_absent)
    with True Cons.prems(1) show ?thesis by (auto simp: nullptr_def)
  next
    case False
    with Cons show ?thesis by (auto simp: at_most_one_entry_Cons)
  qed
qed

lemma abstraction_set_owned_v3:
  "p \<noteq> nullptr \<Longrightarrow> at_most_one_entry bc
     \<Longrightarrow> abstraction (set_owned_v3 bc p) = set_owned (abstraction bc) p"
proof (induction bc)
  case Nil
  then show ?case by (simp add: set_owned_def)
next
  case (Cons e es)
  show ?case
  proof (cases "ptr e = p")
    case True
    with Cons.prems show ?thesis by (auto simp: set_owned_def)
  next
    case False
    with Cons have IH: "abstraction (set_owned_v3 es p) = set_owned (abstraction es) p"
      by (auto simp: at_most_one_entry_Cons)
    with False show ?thesis
      by (auto simp: set_owned_def fun_eq_iff split: option.splits)
  qed
qed

lemma free_slots_Valid_add_borrow_v3:
  "p \<noteq> nullptr \<Longrightarrow> free_slots_Valid bc \<Longrightarrow> add_borrow_v3 bc p st = Inr bc'
     \<Longrightarrow> free_slots_Valid bc'"
  by (induction bc arbitrary: bc') (auto simp: free_slots_Valid_Cons split: if_splits sum.splits)

lemma free_slots_Valid_remove_borrow_v3:
  "free_slots_Valid bc \<Longrightarrow> free_slots_Valid (remove_borrow_v3 bc p)"
  by (induction bc) (auto simp: free_slots_Valid_Cons)

lemma free_slots_Valid_set_owned_v3:
  "p \<noteq> nullptr \<Longrightarrow> free_slots_Valid bc \<Longrightarrow> free_slots_Valid (set_owned_v3 bc p)"
  by (induction bc) (auto simp: free_slots_Valid_Cons)

lemma free_slots_Valid_ctor: "free_slots_Valid (BorrowChecker_v3_ctor N)"
  by (simp add: free_slots_Valid_def BorrowChecker_v3_ctor_def)

lemma abstraction_ctor: "abstraction (BorrowChecker_v3_ctor N) = Map.empty"
  by (induction N) (simp_all add: BorrowChecker_v3_ctor_def)

lemma check_borrow_v3_abstraction:
  "at_most_one_entry bc \<Longrightarrow> check_borrow_v3 bc p = check_borrow (abstraction bc) p"
proof (induction bc)
  case Nil
  then show ?case by (simp add: check_borrow_v3_def check_borrow_impl_def check_borrow_def)
next
  case (Cons e es)
  then have IH: "first_not_Valid (map (slot_state p) es) = check_borrow (abstraction es) p"
    by (simp add: at_most_one_entry_Cons check_borrow_v3_def check_borrow_impl_def)
  show ?case
  proof (cases "ptr e = p \<and> p \<noteq> nullptr")
    case True
    with Cons.prems have "p \<notin> set (map ptr es)"
      by (auto simp: at_most_one_entry_Cons)
    then have "first_not_Valid (map (slot_state p) es) = Valid"
      by (auto simp: first_not_Valid_eq_Valid slot_state_def)
    with True show ?thesis
      by (simp add: check_borrow_v3_def check_borrow_impl_def check_borrow_def slot_state_def)
  next
    case False
    with IH show ?thesis
      by (auto simp: check_borrow_v3_def check_borrow_impl_def check_borrow_def slot_state_def
          abstraction_nullptr)
  qed
qed

lemma check_owned_v3_abstraction:
  "free_slots_Valid bc \<Longrightarrow> check_owned_v3 bc p = check_owned (abstraction bc) p"
proof (induction bc)
  case Nil
  then show ?case by (simp add: check_owned_def)
next
  case (Cons e es)
  then show ?case
    by (auto simp: free_slots_Valid_Cons check_owned_def abstraction_nullptr)
qed

lemma apply_op_simulation:
  assumes "registry_inv bm" "op_addr x \<noteq> nullptr"
    and "apply_op (abstraction bm) x = Inr bc'" "apply_op_v3 bm x = Inr bm'"
  shows "registry_inv bm' \<and> abstraction bm' = bc'"
proof (cases x)
  case (Register p st)
  with assms have p: "p \<noteq> nullptr" and absent: "abstraction bm p = None"
    and bc': "bc' = (abstraction bm)(p \<mapsto> st)" and add: "add_borrow_v3 bm p st = Inr bm'"
    by (auto simp: add_borrow_def split: if_splits)
  from absent have no: "\<not> has_entry_v3 bm p" by (simp add: abstraction_None)
  from assms(1) have "at_most_one_entry bm'" "free_slots_Valid bm'"
    using at_most_one_entry_add_borrow_v3[OF _ no add] free_slots_Valid_add_borrow_v3[OF p _ add]
    by (simp_all add: registry_inv_def)
  then show ?thesis
    using abstraction_add_borrow_v3[OF p no add] bc' by (simp add: registry_inv_def)
next
  case (Unregister p)
  with assms have p: "p \<noteq> nullptr" and bc': "bc' = remove_borrow (abstraction bm) p"
    and bm': "bm' = remove_borrow_v3 bm p"
    by auto
  have "remove_borrow (abstraction bm) p = (abstraction bm)(p := None)"
    by (auto simp: remove_borrow_def split: option.splits)
  with assms(1) p show ?thesis
    by (simp add: registry_inv_def bc' bm' at_most_one_entry_remove_borrow_v3
        free_slots_Valid_remove_borrow_v3 abstraction_remove_borrow_v3)
next
  case (Mark_owned p)
  with assms have p: "p \<noteq> nullptr" and bc': "bc' = set_owned (abstraction bm) p"
    and bm': "bm' = set_owned_v3 bm p"
    by auto
  with assms(1) show ?thesis
    by (simp add: registry_inv_def at_most_one_entry_set_owned_v3
        free_slots_Valid_set_owned_v3 abstraction_set_owned_v3)
qed

lemma run_simulation:
  "registry_inv bm \<Longrightarrow> \<forall>x \<in> set xs. op_addr x \<noteq> nullptr
     \<Longrightarrow> run (abstraction bm) xs = Inr bc' \<Longrightarrow> run_v3 bm xs = Inr bm'
     \<Longrightarrow> registry_inv bm' \<and> abstraction bm' = bc'"
proof (induction xs arbitrary: bm)
  case Nil
  then show ?case by simp
next
  case (Cons x xs)
  from Cons.prems obtain bc1 where a: "apply_op (abstraction bm) x = Inr bc1" and ra: "run bc1 xs = Inr bc'"
    by (auto split: sum.splits)
  from Cons.prems obtain bm1 where c: "apply_op_v3 bm x = Inr bm1" and rc: "run_v3 bm1 xs = Inr bm'"
    by (auto split: sum.splits)
  from Cons.prems have "op_addr x \<noteq> nullptr" by simp
  from apply_op_simulation[OF Cons.prems(1) this a c]
  have inv1: "registry_inv bm1" and abs1: "abstraction bm1 = bc1" by simp_all
  from Cons.prems have "\<forall>x \<in> set xs. op_addr x \<noteq> nullptr" by simp
  from Cons.IH[OF inv1 this _ rc] ra abs1 show ?case by simp
qed

text \<open>
  Whenever both registries complete a sequence that never names \<^verbatim>\<open>nullptr\<close>, their
  queries agree.
\<close>

lemma registries_agree_on_completed_runs:
  assumes "\<forall>x \<in> set xs. op_addr x \<noteq> nullptr"
    and "run Map.empty xs = Inr bc"
    and "run_v3 (BorrowChecker_v3_ctor N) xs = Inr bm"
  shows "check_borrow_v3 bm p = check_borrow bc p \<and> check_owned_v3 bm p = check_owned bc p"
proof -
  have "registry_inv (BorrowChecker_v3_ctor N)"
    by (simp add: registry_inv_def at_most_one_entry_ctor free_slots_Valid_ctor)
  from run_simulation[OF this assms(1) _ assms(3)] assms(2)
  have "registry_inv bm" "abstraction bm = bc"
    by (simp_all add: abstraction_ctor)
  then show ?thesis
    using check_borrow_v3_abstraction[of bm p] check_owned_v3_abstraction[of bm p]
    by (simp add: registry_inv_def)
qed










section \<open>The handles\<close>

subsection \<open>Exclusive access excludes a second exclusive access\<close>

lemma MutableRef_ctor_Inr:
  "MutableRef_ctor p bc = Inr (h, bc') \<longleftrightarrow>
     bc p = None \<and> h = \<lparr>data_MutableRef = p\<rparr> \<and> bc' = bc(p \<mapsto> MutableBorrowed)"
  by (auto simp: MutableRef_ctor_def check_borrow_def add_borrow_def split: option.splits)

text \<open>
  C5. Once an exclusive-access handle over \<open>p\<close> has been constructed, constructing a
  second one over \<open>p\<close> throws the catchable \<^verbatim>\<open>runtime_error\<close> and leaves the registry as it
  is; after the first handle's destructor has run (in v2 and in v1, where it passes the
  assertion), the entry of \<open>p\<close> is gone and a new exclusive-access handle over \<open>p\<close> is
  constructed.
\<close>

theorem MutableRef_twice_then_release:
  assumes "MutableRef_ctor p bc = Inr (h1, bc1)"
  shows "MutableRef_ctor p bc1 =
           Inl (Thrown (runtime_error ''cannot borrow as mutable more than once, already borrowed'') bc1)
       \<and> MutableRef_dtor_v1 h1 bc1 = Inr (MutableRef_dtor h1 bc1)
       \<and> MutableRef_dtor h1 bc1 p = None
       \<and> MutableRef_ctor p (MutableRef_dtor h1 bc1) =
           Inr (\<lparr>data_MutableRef = p\<rparr>, (MutableRef_dtor h1 bc1)(p \<mapsto> MutableBorrowed))"
proof -
  from assms have absent: "bc p = None"
    and h1: "h1 = \<lparr>data_MutableRef = p\<rparr>"
    and bc1: "bc1 = bc(p \<mapsto> MutableBorrowed)"
    by (simp_all add: MutableRef_ctor_Inr)
  have second: "MutableRef_ctor p bc1 =
      Inl (Thrown (runtime_error ''cannot borrow as mutable more than once, already borrowed'') bc1)"
    by (simp add: MutableRef_ctor_def check_borrow_def bc1)
  have released: "MutableRef_dtor h1 bc1 = bc"
    using absent by (auto simp: MutableRef_dtor_def remove_borrow_def h1 bc1)
  have strict: "MutableRef_dtor_v1 h1 bc1 = Inr bc"
    using absent by (auto simp: MutableRef_dtor_v1_def remove_borrow_v1_def h1 bc1)
  have again: "MutableRef_ctor p bc = Inr (\<lparr>data_MutableRef = p\<rparr>, bc(p \<mapsto> MutableBorrowed))"
    using absent by (simp add: MutableRef_ctor_Inr)
  show ?thesis
    using second released strict again absent by simp
qed

theorem MutableRef_twice_then_release_witness:
  "MutableRef_ctor 1 Map.empty = Inr (\<lparr>data_MutableRef = 1\<rparr>, [1 \<mapsto> MutableBorrowed])
   \<and> MutableRef_ctor 1 [1 \<mapsto> MutableBorrowed] =
       Inl (Thrown (runtime_error ''cannot borrow as mutable more than once, already borrowed'')
              [1 \<mapsto> MutableBorrowed])
   \<and> MutableRef_dtor \<lparr>data_MutableRef = 1\<rparr> [1 \<mapsto> MutableBorrowed] 1 = None"
proof -
  have c: "MutableRef_ctor 1 Map.empty = Inr (\<lparr>data_MutableRef = 1\<rparr>, [1 \<mapsto> MutableBorrowed])"
    by (simp add: MutableRef_ctor_def check_borrow_def add_borrow_def)
  from MutableRef_twice_then_release [OF c] c show ?thesis
    by simp
qed

subsection \<open>Shared access, then exclusive access\<close>

lemma Ref_ctor_then_MutableRef_ctor:
  "Ref_ctor p bc = Inr (r, bc1) \<Longrightarrow> MutableRef_ctor p bc1 = Inl Assertion_failed"
  by (auto simp: Ref_ctor_def MutableRef_ctor_def add_borrow_def check_borrow_def
      split: if_splits)

text \<open>
  C1. What the code does (v2; v1 has the same two constructors): the constructor of
  \<^verbatim>\<open>Ref\<close> registers the address with the state \<^verbatim>\<open>Valid\<close>; the constructor of \<^verbatim>\<open>MutableRef\<close>
  then reads \<^verbatim>\<open>Valid\<close>, does not throw, and fails the assertion of \<^verbatim>\<open>add_borrow\<close>. Once the
  destructor of the \<^verbatim>\<open>Ref\<close> has run, the constructor of \<^verbatim>\<open>MutableRef\<close> succeeds.
\<close>

theorem Ref_then_MutableRef_aborts:
  "Ref_ctor 1 Map.empty = Inr (\<lparr>data_Ref = 1\<rparr>, [1 \<mapsto> Valid])
   \<and> MutableRef_ctor 1 [1 \<mapsto> Valid] = Inl Assertion_failed
   \<and> MutableRef_ctor 1 (Ref_dtor \<lparr>data_Ref = 1\<rparr> [1 \<mapsto> Valid]) =
       Inr (\<lparr>data_MutableRef = 1\<rparr>, [1 \<mapsto> MutableBorrowed])"
  by (simp add: Ref_ctor_def MutableRef_ctor_def add_borrow_def check_borrow_def nullptr_def
      Ref_dtor_def remove_borrow_def)

subsection \<open>Constructing a shared-access handle\<close>

text \<open>
  The constructor of v3 checks the registry first: it throws \<^verbatim>\<open>logic_error\<close> when the
  state is not \<^verbatim>\<open>Valid\<close>, and otherwise, given a free slot, fills a slot with the address
  and \<^verbatim>\<open>Valid\<close>.
\<close>

lemma Ref_ctor_v3_checks:
  "(check_borrow_v3 bc p \<noteq> Valid \<longrightarrow>
      Ref_ctor_v3 p bc = Inl (Thrown (logic_error ''Invalid borrow in Ref constructor'') bc))
   \<and> (check_borrow_v3 bc p = Valid \<and> (\<exists>e \<in> set bc. ptr e = nullptr) \<longrightarrow>
        (\<exists>bc'. Ref_ctor_v3 p bc = Inr (\<lparr>data_Ref = p\<rparr>, bc') \<and> \<lparr>ptr = p, state = Valid\<rparr> \<in> set bc'))"
proof (intro conjI impI)
  assume "check_borrow_v3 bc p \<noteq> Valid"
  then show "Ref_ctor_v3 p bc = Inl (Thrown (logic_error ''Invalid borrow in Ref constructor'') bc)"
    by (simp add: Ref_ctor_v3_def)
next
  assume a: "check_borrow_v3 bc p = Valid \<and> (\<exists>e \<in> set bc. ptr e = nullptr)"
  then obtain bc' where b: "add_borrow_v3 bc p Valid = Inr bc'"
    using add_borrow_v3_free by blast
  then have "\<lparr>ptr = p, state = Valid\<rparr> \<in> set bc'"
    using add_borrow_v3_Inr_set by blast
  with a b show "\<exists>bc'. Ref_ctor_v3 p bc = Inr (\<lparr>data_Ref = p\<rparr>, bc') \<and> \<lparr>ptr = p, state = Valid\<rparr> \<in> set bc'"
    by (simp add: Ref_ctor_v3_def)
qed

text \<open>
  C2. What the code does: the constructor of \<^verbatim>\<open>Ref\<close> in v2 (and v1) does not query the
  registry; over an address that is exclusively borrowed it fails the assertion of
  \<^verbatim>\<open>add_borrow\<close>, where the constructor of v3 throws.
\<close>

theorem Ref_ctor_unchecked:
  "Ref_ctor 1 [1 \<mapsto> MutableBorrowed] = Inl Assertion_failed
   \<and> Ref_ctor_v3 1 [\<lparr>ptr = 1, state = MutableBorrowed\<rparr>, \<lparr>ptr = nullptr, state = Valid\<rparr>] =
       Inl (Thrown (logic_error ''Invalid borrow in Ref constructor'')
              [\<lparr>ptr = 1, state = MutableBorrowed\<rparr>, \<lparr>ptr = nullptr, state = Valid\<rparr>])"
  by (simp add: Ref_ctor_def add_borrow_def nullptr_def Ref_ctor_v3_def check_borrow_v3_def
      check_borrow_impl_def slot_state_def)

subsection \<open>A thrown exception leaves the registry as it was\<close>

text \<open>
  C10. Whenever one of these operations throws, the registry at the \<^verbatim>\<open>throw\<close> is the
  registry before the call: the constructor of \<^verbatim>\<open>MutableRef\<close>, the move assignment of
  \<^verbatim>\<open>Ref\<close> in v1, \<^verbatim>\<open>Own::set_owner\<close> of v2, and in v3 the constructor of \<^verbatim>\<open>Ref\<close>,
  \<^verbatim>\<open>Own::set_owned\<close> and \<^verbatim>\<open>Own::borrow\<close>.
\<close>

theorem faults_are_atomic:
  "(MutableRef_ctor p bc = Inl (Thrown e1 bc1) \<longrightarrow> bc1 = bc)
   \<and> (Ref_move_assign_v1 r rhs bc = Inl (Thrown e2 bc2) \<longrightarrow> bc2 = bc)
   \<and> (set_owner own bc = Inl (Thrown e3 bc3) \<longrightarrow> bc3 = bc)
   \<and> (Ref_ctor_v3 p bm = Inl (Thrown e4 bm4) \<longrightarrow> bm4 = bm)
   \<and> (Own_set_owned_v3 own bm = Inl (Thrown e5 bm5) \<longrightarrow> bm5 = bm)
   \<and> (Own_borrow_v3 own bm = Inl (Thrown e6 bm6) \<longrightarrow> bm6 = bm)"
proof (intro conjI impI)
  assume "MutableRef_ctor p bc = Inl (Thrown e1 bc1)"
  then show "bc1 = bc"
    by (auto simp: MutableRef_ctor_def add_borrow_not_Thrown split: if_splits sum.splits)
next
  assume "Ref_move_assign_v1 r rhs bc = Inl (Thrown e2 bc2)"
  then show "bc2 = bc"
    by (auto simp: Ref_move_assign_v1_def Let_def add_borrow_not_Thrown remove_borrow_v1_not_Thrown
        split: if_splits sum.splits operand.splits)
next
  assume "set_owner own bc = Inl (Thrown e3 bc3)"
  then show "bc3 = bc"
    by (auto simp: set_owner_def split: if_splits)
next
  assume "Ref_ctor_v3 p bm = Inl (Thrown e4 bm4)"
  then show "bm4 = bm"
    by (auto simp: Ref_ctor_v3_def add_borrow_v3_not_Thrown split: if_splits sum.splits)
next
  assume "Own_set_owned_v3 own bm = Inl (Thrown e5 bm5)"
  then show "bm5 = bm"
    by (auto simp: Own_set_owned_v3_def split: if_splits)
next
  assume "Own_borrow_v3 own bm = Inl (Thrown e6 bm6)"
  then show "bm6 = bm"
    by (auto simp: Own_borrow_v3_def add_borrow_v3_not_Thrown split: if_splits sum.splits)
qed

theorem faults_are_atomic_witness:
  "MutableRef_ctor 1 [1 \<mapsto> MutableBorrowed] =
     Inl (Thrown (runtime_error ''cannot borrow as mutable more than once, already borrowed'')
            [1 \<mapsto> MutableBorrowed])
   \<and> Ref_move_assign_v1 \<lparr>data_Ref = 2\<rparr> (Other \<lparr>data_Ref = 1\<rparr>) [1 \<mapsto> MutableBorrowed] =
       Inl (Thrown (runtime_error ''cannot move value while it is borrowed'') [1 \<mapsto> MutableBorrowed])
   \<and> set_owner \<lparr>data_Own = nullptr, is_owner_Own = False\<rparr> [1 \<mapsto> MutableBorrowed] =
       Inl (Thrown (runtime_error ''value already has an owner'') [1 \<mapsto> MutableBorrowed])
   \<and> Ref_ctor_v3 1 [\<lparr>ptr = 1, state = MutableBorrowed\<rparr>] =
       Inl (Thrown (logic_error ''Invalid borrow in Ref constructor'') [\<lparr>ptr = 1, state = MutableBorrowed\<rparr>])
   \<and> Own_set_owned_v3 \<lparr>data_Own = 1, is_owner_Own = True\<rparr> [\<lparr>ptr = 1, state = MutableBorrowed\<rparr>] =
       Inl (Thrown (logic_error ''setting owned of borrowed data'') [\<lparr>ptr = 1, state = MutableBorrowed\<rparr>])
   \<and> Own_borrow_v3 \<lparr>data_Own = 1, is_owner_Own = True\<rparr> [\<lparr>ptr = 1, state = MutableBorrowed\<rparr>] =
       Inl (Thrown (logic_error ''borrow of already borrowed data'') [\<lparr>ptr = 1, state = MutableBorrowed\<rparr>])"
proof -
  let ?bc = "[1 \<mapsto> MutableBorrowed] :: BorrowChecker"
  let ?bm = "[\<lparr>ptr = 1, state = MutableBorrowed\<rparr>]"
  obtain e1 bc1 where h1: "MutableRef_ctor 1 ?bc = Inl (Thrown e1 bc1)"
    and e1: "e1 = runtime_error ''cannot borrow as mutable more than once, already borrowed''"
    by (simp add: MutableRef_ctor_def check_borrow_def)
  obtain e2 bc2 where h2: "Ref_move_assign_v1 \<lparr>data_Ref = 2\<rparr> (Other \<lparr>data_Ref = 1\<rparr>) ?bc = Inl (Thrown e2 bc2)"
    and e2: "e2 = runtime_error ''cannot move value while it is borrowed''"
    by (simp add: Ref_move_assign_v1_def check_borrow_def nullptr_def)
  obtain e3 bc3 where h3: "set_owner \<lparr>data_Own = nullptr, is_owner_Own = False\<rparr> ?bc = Inl (Thrown e3 bc3)"
    and e3: "e3 = runtime_error ''value already has an owner''"
    by (simp add: set_owner_def)
  obtain e4 bm4 where h4: "Ref_ctor_v3 1 ?bm = Inl (Thrown e4 bm4)"
    and e4: "e4 = logic_error ''Invalid borrow in Ref constructor''"
    by (simp add: Ref_ctor_v3_def check_borrow_v3_def check_borrow_impl_def slot_state_def nullptr_def)
  obtain e5 bm5 where h5: "Own_set_owned_v3 \<lparr>data_Own = 1, is_owner_Own = True\<rparr> ?bm = Inl (Thrown e5 bm5)"
    and e5: "e5 = logic_error ''setting owned of borrowed data''"
    by (simp add: Own_set_owned_v3_def check_borrow_v3_def check_borrow_impl_def slot_state_def nullptr_def)
  obtain e6 bm6 where h6: "Own_borrow_v3 \<lparr>data_Own = 1, is_owner_Own = True\<rparr> ?bm = Inl (Thrown e6 bm6)"
    and e6: "e6 = logic_error ''borrow of already borrowed data''"
    by (simp add: Own_borrow_v3_def check_borrow_v3_def check_borrow_impl_def slot_state_def nullptr_def)
  have a: "bc1 = ?bc" "bc2 = ?bc"
    using faults_are_atomic [of 1 ?bc e1 bc1 "\<lparr>data_Ref = 2\<rparr>" "Other \<lparr>data_Ref = 1\<rparr>" e2 bc2] h1 h2
    by blast+
  have b: "bc3 = ?bc"
    using faults_are_atomic [of _ ?bc _ _ _ _ _ _ "\<lparr>data_Own = nullptr, is_owner_Own = False\<rparr>" e3 bc3] h3
    by blast
  have c: "bm4 = ?bm"
    using faults_are_atomic [of 1 _ _ _ _ _ _ _ _ _ _ ?bm e4 bm4] h4
    by blast
  have d: "bm5 = ?bm" "bm6 = ?bm"
    using faults_are_atomic [of _ _ _ _ _ _ _ _ "\<lparr>data_Own = 1, is_owner_Own = True\<rparr>" _ _ ?bm _ _ e5 bm5 e6 bm6] h5 h6
    by blast+
  from h1 h2 h3 h4 h5 h6 show ?thesis
    unfolding a b c d e1 e2 e3 e4 e5 e6 by simp
qed

text \<open>
  The constructor of \<^verbatim>\<open>Ref\<close> and its \<^verbatim>\<open>noexcept\<close> move assignment in v2 never throw to the
  caller.
\<close>

lemma Ref_hash_map_v2_never_throws:
  "Ref_ctor p bc \<noteq> Inl (Thrown e bc') \<and> Ref_move_assign r rhs bc \<noteq> Inl (Thrown e bc')"
  by (auto simp: Ref_ctor_def Ref_move_assign_def Let_def add_borrow_not_Thrown
      split: if_splits sum.splits operand.splits)

subsection \<open>Moving an exclusive-ownership handle\<close>






end
